theory Spec2Isabelle
  imports Main
begin

section \<open>The snake game of \<^verbatim>\<open>src/snake/main.py\<close>\<close>

text \<open>
  A shallow embedding of the game's domain logic: the point type, the four directions,
  the snake with its methods \<^verbatim>\<open>move\<close>, \<^verbatim>\<open>grow\<close>, \<^verbatim>\<open>update\<close> and \<^verbatim>\<open>is_dead\<close>,
  the apple placement and the renderer. Python's unbounded integers are \<open>int\<close>; HOL's
  \<open>mod\<close> on \<open>int\<close> takes the sign of the divisor, as Python's \<^verbatim>\<open>%\<close> does, and the
  division by zero that Python raises is written out. A method that mutates the snake
  returns the outcome of the call (\<open>Inl\<close> the exception raised, \<open>Inr\<close> the value
  returned) together with the snake as the call leaves it.
\<close>

subsection \<open>Exceptions\<close>

datatype error = IndexError | ZeroDivisionError | SystemExit int

subsection \<open>Geometry: \<^verbatim>\<open>Point2D\<close> and \<^verbatim>\<open>Direction\<close>\<close>

text \<open>
  The attributes \<^verbatim>\<open>x\<close> and \<^verbatim>\<open>y\<close> of a point are named after the parameters of
  \<^verbatim>\<open>__init__\<close> that set them. \<^verbatim>\<open>__eq__\<close> compares both attributes, which is HOL's
  equality on the datatype; \<^verbatim>\<open>__add__\<close> is only ever applied to another point.
\<close>

datatype Point2D = Point2D (x_coord: int) (y_coord: int)

definition add :: "Point2D \<Rightarrow> Point2D \<Rightarrow> Point2D" where
  "add self other = Point2D (x_coord self + x_coord other) (y_coord self + y_coord other)"

definition neg :: "Point2D \<Rightarrow> Point2D" where
  "neg self = Point2D (- x_coord self) (- y_coord self)"

definition squash :: "Point2D \<Rightarrow> int \<Rightarrow> int \<Rightarrow> error + Point2D" where
  "squash self x_bounds y_bounds =
     (if x_bounds = 0 then Inl ZeroDivisionError
      else if y_bounds = 0 then Inl ZeroDivisionError
      else Inr (Point2D (x_coord self mod x_bounds) (y_coord self mod y_bounds)))"

datatype Direction = UP | DOWN | RIGHT | LEFT

fun direction_value :: "Direction \<Rightarrow> Point2D" where
  "direction_value UP = Point2D 0 (- 1)"
| "direction_value DOWN = Point2D 0 1"
| "direction_value RIGHT = Point2D 1 0"
| "direction_value LEFT = Point2D (- 1) 0"

subsection \<open>Key strings\<close>

text \<open>
  A key is a Python string: a list of code points, of any length and any characters.
  \<^verbatim>\<open>str.strip\<close> and \<^verbatim>\<open>str.lower\<close> are Python's own. \<^verbatim>\<open>strip\<close> removes the
  leading and trailing whitespace, the code points for which \<^verbatim>\<open>str.isspace\<close> holds:
  9 to 13, 28 to 32, 133, 160, 5760, 8192 to 8202, 8232, 8233, 8239, 8287 and 12288.
  \<^verbatim>\<open>lower\<close> maps a string of ASCII characters one character at a time, adding 32 to
  the capitals \<^verbatim>\<open>A\<close> to \<^verbatim>\<open>Z\<close>. On a string with a character beyond ASCII its
  result follows the tables of Unicode, which the repository does not hold: there it is
  the parameter \<open>unicode_lower\<close>, which \<^verbatim>\<open>move\<close> takes too.
\<close>

definition literal :: "string \<Rightarrow> nat list" where
  "literal s = map of_char s"

definition isspace :: "nat \<Rightarrow> bool" where
  "isspace c =
     ((9 \<le> c \<and> c \<le> 13) \<or> (28 \<le> c \<and> c \<le> 32) \<or> c = 133 \<or> c = 160 \<or> c = 5760 \<or>
      (8192 \<le> c \<and> c \<le> 8202) \<or> c = 8232 \<or> c = 8233 \<or> c = 8239 \<or> c = 8287 \<or>
      c = 12288)"

definition strip :: "nat list \<Rightarrow> nat list" where
  "strip key = rev (dropWhile isspace (rev (dropWhile isspace key)))"

definition isascii :: "nat list \<Rightarrow> bool" where
  "isascii key = list_all (\<lambda>c. c < 128) key"

definition lower_ascii :: "nat \<Rightarrow> nat" where
  "lower_ascii c = (if 65 \<le> c \<and> c \<le> 90 then c + 32 else c)"

definition lower :: "(nat list \<Rightarrow> nat list) \<Rightarrow> nat list \<Rightarrow> nat list" where
  "lower unicode_lower key =
     (if isascii key then map lower_ascii key else unicode_lower key)"

subsection \<open>The snake\<close>

record Snake =
  coords :: "Point2D list"
  direction :: Direction

text \<open>
  \<^verbatim>\<open>char_to_direction\<close> is an attribute that \<^verbatim>\<open>__init__\<close> sets to the same dictionary
  for every snake and that no method assigns: it is a constant of the model.
\<close>

definition char_to_direction :: "nat list \<rightharpoonup> Direction" where
  "char_to_direction =
     [literal ''w'' \<mapsto> UP, literal ''a'' \<mapsto> LEFT, literal ''s'' \<mapsto> DOWN,
      literal ''d'' \<mapsto> RIGHT]"

definition init :: "int \<Rightarrow> int \<Rightarrow> Direction \<Rightarrow> Snake" where
  "init x y d = \<lparr>coords = [Point2D x y], direction = d\<rparr>"

definition show_coords :: "Snake \<Rightarrow> Point2D list" where
  "show_coords self = coords self"

definition move :: "(nat list \<Rightarrow> nat list) \<Rightarrow> Snake \<Rightarrow> nat list \<Rightarrow> bool \<times> Snake" where
  "move unicode_lower self key =
     (let character = lower unicode_lower (strip key);
          self' =
            (case char_to_direction character of
               Some d \<Rightarrow>
                 if direction_value (direction self) \<noteq> neg (direction_value d)
                 then self\<lparr>direction := d\<rparr> else self
             | None \<Rightarrow> self)
      in if character = literal ''q'' then (False, self') else (True, self'))"

definition grow :: "Snake \<Rightarrow> (error + unit) \<times> Snake" where
  "grow self =
     (case coords self of
        [] \<Rightarrow> (Inl IndexError, self)
      | h # _ \<Rightarrow>
          (Inr (), self\<lparr>coords := [add h (direction_value (direction self))] @ coords self\<rparr>))"

text \<open>The list comprehension of \<^verbatim>\<open>update\<close>: the first \<^verbatim>\<open>squash\<close> that raises ends it.\<close>

fun squash_all :: "Point2D list \<Rightarrow> int \<Rightarrow> int \<Rightarrow> error + Point2D list" where
  "squash_all [] x_bounds y_bounds = Inr []"
| "squash_all (coord # rest) x_bounds y_bounds =
     (case squash coord x_bounds y_bounds of
        Inl e \<Rightarrow> Inl e
      | Inr p \<Rightarrow>
          (case squash_all rest x_bounds y_bounds of
             Inl e \<Rightarrow> Inl e
           | Inr ps \<Rightarrow> Inr (p # ps)))"

text \<open>\<^verbatim>\<open>list.pop()\<close> removes the last element and raises on an empty list.\<close>

definition pop :: "Snake \<Rightarrow> (error + unit) \<times> Snake" where
  "pop self =
     (if coords self = [] then (Inl IndexError, self)
      else (Inr (), self\<lparr>coords := butlast (coords self)\<rparr>))"

definition update :: "Snake \<Rightarrow> int \<Rightarrow> int \<Rightarrow> (error + unit) \<times> Snake" where
  "update self x_bounds y_bounds =
     (case squash_all (coords self) x_bounds y_bounds of
        Inl e \<Rightarrow> (Inl e, self)
      | Inr cs \<Rightarrow>
          (case grow (self\<lparr>coords := cs\<rparr>) of
             (Inl e, self1) \<Rightarrow> (Inl e, self1)
           | (Inr u, self1) \<Rightarrow> pop self1))"

definition is_dead :: "Snake \<Rightarrow> error + bool" where
  "is_dead self =
     (case coords self of
        [] \<Rightarrow> Inl IndexError
      | h # rest \<Rightarrow> Inr (h \<in> set rest))"

subsection \<open>Apple placement\<close>

text \<open>\<^verbatim>\<open>range(n)\<close> counts from 0 to \<open>n - 1\<close> and is empty when \<open>n \<le> 0\<close>.\<close>

definition py_range :: "int \<Rightarrow> int list" where
  "py_range n = [0..n - 1]"

definition free_cells :: "int \<Rightarrow> int \<Rightarrow> Snake \<Rightarrow> Point2D list" where
  "free_cells x_bounds y_bounds snake =
     concat (map (\<lambda>x. map (\<lambda>y. Point2D x y)
                    (filter (\<lambda>y. Point2D x y \<notin> set (coords snake)) (py_range y_bounds)))
               (py_range x_bounds))"

text \<open>
  \<^verbatim>\<open>random.choice\<close> reads the element at an index that the generator draws below the
  length of the list. The draw is the argument \<open>r\<close>, reduced below the length, so that
  every index can be drawn and no other.
\<close>

definition choice :: "nat \<Rightarrow> 'a list \<Rightarrow> error + 'a" where
  "choice r seq = (if seq = [] then Inl IndexError else Inr (seq ! (r mod length seq)))"

text \<open>\<^verbatim>\<open>sys.exit(0)\<close> raises \<^verbatim>\<open>SystemExit\<close> with status 0: the win.\<close>

definition new_apple_location :: "nat \<Rightarrow> int \<Rightarrow> int \<Rightarrow> Snake \<Rightarrow> error + Point2D" where
  "new_apple_location r x_bounds y_bounds snake =
     (let free = free_cells x_bounds y_bounds snake
      in if free = [] then Inl (SystemExit 0) else choice r free)"

subsection \<open>Renderer\<close>

definition RESET :: string where
  "RESET = CHR 0x1B # ''[0m''"

definition GREEN :: string where
  "GREEN = CHR 0x1B # ''[32m''"

definition RED :: string where
  "RED = CHR 0x1B # ''[31m''"

definition BLUE :: string where
  "BLUE = CHR 0x1B # ''[34m''"

text \<open>\<^verbatim>\<open>sep.join(row)\<close>.\<close>

fun join :: "string \<Rightarrow> string list \<Rightarrow> string" where
  "join sep [] = []"
| "join sep [cell] = cell"
| "join sep (cell # rest) = cell @ sep @ join sep rest"

text \<open>
  An index into a Python list of length \<open>n\<close>: a negative index counts from the end,
  and an index outside \<open>-n \<le> i < n\<close> raises.
\<close>

definition py_index :: "nat \<Rightarrow> int \<Rightarrow> error + nat" where
  "py_index n i =
     (let j = (if i < 0 then int n + i else i)
      in if 0 \<le> j \<and> j < int n then Inr (nat j) else Inl IndexError)"

definition blank_board :: "int \<Rightarrow> int \<Rightarrow> string list list" where
  "blank_board x_bounds y_bounds =
     map (\<lambda>_. map (\<lambda>_. '' '') (py_range x_bounds)) (py_range y_bounds)"

text \<open>
  The body of the loop over the snake's points. The guard puts both indices inside
  the board, which has \<open>y_bounds\<close> rows of \<open>x_bounds\<close> cells.
\<close>

definition mark_point :: "int \<Rightarrow> int \<Rightarrow> Point2D \<Rightarrow> string list list \<Rightarrow> string list list" where
  "mark_point x_bounds y_bounds point board =
     (if 0 \<le> x_coord point \<and> x_coord point < x_bounds \<and>
         0 \<le> y_coord point \<and> y_coord point < y_bounds
      then board[nat (y_coord point) :=
                   (board ! nat (y_coord point))[nat (x_coord point) := GREEN @ ''S'' @ RESET]]
      else board)"

definition horizontal_border :: "int \<Rightarrow> string" where
  "horizontal_border x_bounds =
     BLUE @ ''+'' @ concat (replicate 2 (replicate (nat x_bounds) CHR ''-'')) @ ''+'' @ RESET"

definition render_row :: "string list \<Rightarrow> string" where
  "render_row row = (BLUE @ ''|'' @ RESET) @ join '' '' row @ ('' '' @ BLUE @ ''|'' @ RESET)"

text \<open>
  \<^verbatim>\<open>plot\<close> without its clearing of the screen, which leaves the returned lines as
  they are. The assignment of the apple's cell indexes the board at the apple's
  coordinates unguarded.
\<close>

definition plot :: "int \<Rightarrow> int \<Rightarrow> Snake \<Rightarrow> Point2D \<Rightarrow> error + string list" where
  "plot x_bounds y_bounds snake apple =
     (let board = blank_board x_bounds y_bounds
      in case py_index (length board) (y_coord apple) of
           Inl e \<Rightarrow> Inl e
         | Inr r \<Rightarrow>
             (case py_index (length (board ! r)) (x_coord apple) of
                Inl e \<Rightarrow> Inl e
              | Inr c \<Rightarrow>
                  (let board1 = board[r := (board ! r)[c := RED @ ''A'' @ RESET]];
                       board2 = fold (mark_point x_bounds y_bounds) (coords snake) board1;
                       rendered_board = [horizontal_border x_bounds] @ map render_row board2
                   in Inr (rendered_board @ [horizontal_border x_bounds]))))"


section \<open>Properties\<close>

subsection \<open>Wraparound\<close>

lemma squash_Inr:
  "x_bounds \<noteq> 0 \<Longrightarrow> y_bounds \<noteq> 0 \<Longrightarrow>
   squash p x_bounds y_bounds = Inr (Point2D (x_coord p mod x_bounds) (y_coord p mod y_bounds))"
  by (simp add: squash_def)

text \<open>
  C2. For bounds \<open>x_bounds > 0\<close> and \<open>y_bounds > 0\<close>, \<^verbatim>\<open>squash\<close> of the point
  \<open>(x, y)\<close> returns a point whose components lie in \<open>[0, x_bounds)\<close> and
  \<open>[0, y_bounds)\<close> and differ from \<open>x\<close> and \<open>y\<close> by multiples of the bounds, that is,
  are congruent to them modulo the bounds.
\<close>

theorem squash_in_bounds_congruent:
  assumes "0 < x_bounds" and "0 < y_bounds"
  shows "\<exists>r. squash (Point2D x y) x_bounds y_bounds = Inr r \<and>
             0 \<le> x_coord r \<and> x_coord r < x_bounds \<and>
             0 \<le> y_coord r \<and> y_coord r < y_bounds \<and>
             x_coord r mod x_bounds = x mod x_bounds \<and>
             y_coord r mod y_bounds = y mod y_bounds \<and>
             x_bounds dvd (x - x_coord r) \<and> y_bounds dvd (y - y_coord r)"
proof -
  let ?r = "Point2D (x mod x_bounds) (y mod y_bounds)"
  have "squash (Point2D x y) x_bounds y_bounds = Inr ?r"
    using assms by (simp add: squash_def)
  moreover have "0 \<le> x_coord ?r \<and> x_coord ?r < x_bounds"
    using assms(1) by simp
  moreover have "0 \<le> y_coord ?r \<and> y_coord ?r < y_bounds"
    using assms(2) by simp
  moreover have "x_bounds dvd (x - x_coord ?r)" "y_bounds dvd (y - y_coord ?r)"
    by (simp_all add: minus_mod_eq_mult_div)
  ultimately show ?thesis
    by (intro exI [of _ ?r]) simp
qed

theorem squash_in_bounds_congruent_witness:
  "(0::int) < 30 \<and> (0::int) < 20 \<and>
   (\<exists>r. squash (Point2D (- 1) 47) 30 20 = Inr r \<and>
        0 \<le> x_coord r \<and> x_coord r < 30 \<and> 0 \<le> y_coord r \<and> y_coord r < 20 \<and>
        x_coord r mod 30 = (- 1) mod 30 \<and> y_coord r mod 20 = 47 mod 20 \<and>
        30 dvd (- 1 - x_coord r) \<and> 20 dvd (47 - y_coord r))"
  using squash_in_bounds_congruent [of 30 20 "- 1" 47] by simp

subsection \<open>One tick of movement\<close>

lemma squash_all_map:
  "x_bounds \<noteq> 0 \<Longrightarrow> y_bounds \<noteq> 0 \<Longrightarrow>
   squash_all cs x_bounds y_bounds =
     Inr (map (\<lambda>p. Point2D (x_coord p mod x_bounds) (y_coord p mod y_bounds)) cs)"
  by (induction cs) (simp_all add: squash_Inr)

lemma squash_all_zero:
  "x_bounds = 0 \<or> y_bounds = 0 \<Longrightarrow> cs \<noteq> [] \<Longrightarrow>
   squash_all cs x_bounds y_bounds = Inl ZeroDivisionError"
  by (cases cs) (auto simp: squash_def)

text \<open>With bounds other than zero, \<^verbatim>\<open>update\<close> on a non-empty body returns.\<close>

lemma update_nonzero:
  assumes "coords s \<noteq> []" and "x_bounds \<noteq> 0" and "y_bounds \<noteq> 0"
  shows "update s x_bounds y_bounds =
           (Inr (), s\<lparr>coords :=
              add (Point2D (x_coord (hd (coords s)) mod x_bounds)
                     (y_coord (hd (coords s)) mod y_bounds))
                  (direction_value (direction s)) #
              butlast (map (\<lambda>p. Point2D (x_coord p mod x_bounds) (y_coord p mod y_bounds))
                         (coords s))\<rparr>)"
proof -
  obtain h t where ht: "coords s = h # t"
    using assms(1) by (cases "coords s") auto
  let ?w = "\<lambda>p. Point2D (x_coord p mod x_bounds) (y_coord p mod y_bounds)"
  have sq: "squash_all (coords s) x_bounds y_bounds = Inr (?w h # map ?w t)"
    using assms(2,3) by (simp add: squash_all_map squash_Inr ht)
  have g: "grow (s\<lparr>coords := ?w h # map ?w t\<rparr>) =
             (Inr (), s\<lparr>coords := add (?w h) (direction_value (direction s)) # ?w h # map ?w t\<rparr>)"
    by (simp add: grow_def)
  have p: "pop (s\<lparr>coords := add (?w h) (direction_value (direction s)) # ?w h # map ?w t\<rparr>) =
             (Inr (), s\<lparr>coords := add (?w h) (direction_value (direction s)) #
                                   butlast (?w h # map ?w t)\<rparr>)"
    by (simp add: pop_def)
  show ?thesis
    unfolding update_def sq by (simp add: g p ht)
qed

text \<open>
  A bound of zero makes the first \<^verbatim>\<open>squash\<close> raise, before \<^verbatim>\<open>coords\<close> is
  assigned; an empty body makes \<^verbatim>\<open>grow\<close> raise. Either way the snake is as it was.
\<close>

lemma update_zero:
  assumes "coords s \<noteq> []" and "x_bounds = 0 \<or> y_bounds = 0"
  shows "update s x_bounds y_bounds = (Inl ZeroDivisionError, s)"
  using assms by (simp add: update_def squash_all_zero)

lemma update_empty:
  "coords s = [] \<Longrightarrow> update s x_bounds y_bounds = (Inl IndexError, s)"
  by (simp add: update_def grow_def)

lemma squash_add_squashed:
  "squash (add (Point2D (x_coord h mod x_bounds) (y_coord h mod y_bounds)) d) x_bounds y_bounds =
   squash (add h d) x_bounds y_bounds"
  by (simp add: squash_def add_def mod_add_left_eq)

text \<open>
  C1, as the code has it. For a snake with a non-empty body and bounds
  \<open>x_bounds > 0\<close>, \<open>y_bounds > 0\<close>, one call to \<^verbatim>\<open>update\<close> returns, having first
  re-wrapped every body coordinate through \<^verbatim>\<open>squash\<close> (the list \<open>cs\<close>). The new
  head is the re-wrapped old head plus the vector of the current direction, and it is
  not wrapped itself: wrapping it gives the old head advanced one step and wrapped. The
  remaining segments are the re-wrapped body without its tail.
\<close>

theorem update_head_tail:
  assumes "coords s \<noteq> []" and "0 < x_bounds" and "0 < y_bounds"
  shows "\<exists>cs. squash_all (coords s) x_bounds y_bounds = Inr cs \<and>
              cs = map (\<lambda>p. Point2D (x_coord p mod x_bounds) (y_coord p mod y_bounds))
                     (coords s) \<and>
              update s x_bounds y_bounds =
                (Inr (), s\<lparr>coords := add (hd cs) (direction_value (direction s)) # butlast cs\<rparr>) \<and>
              squash (add (hd cs) (direction_value (direction s))) x_bounds y_bounds =
                squash (add (hd (coords s)) (direction_value (direction s))) x_bounds y_bounds"
proof -
  let ?w = "\<lambda>p. Point2D (x_coord p mod x_bounds) (y_coord p mod y_bounds)"
  have nz: "x_bounds \<noteq> 0" "y_bounds \<noteq> 0"
    using assms(2,3) by simp_all
  have "squash_all (coords s) x_bounds y_bounds = Inr (map ?w (coords s))"
    using nz by (rule squash_all_map)
  moreover have "hd (map ?w (coords s)) = ?w (hd (coords s))"
    using assms(1) by (simp add: hd_map)
  moreover have "update s x_bounds y_bounds =
      (Inr (), s\<lparr>coords := add (?w (hd (coords s))) (direction_value (direction s)) #
                            butlast (map ?w (coords s))\<rparr>)"
    using assms(1) nz by (rule update_nonzero)
  ultimately show ?thesis
    by (simp add: squash_add_squashed)
qed

text \<open>A snake of three segments at the right edge, moving right on the 30 by 20 board.\<close>

theorem update_head_tail_witness:
  "coords \<lparr>coords = [Point2D 29 10, Point2D 28 10, Point2D 27 10], direction = RIGHT\<rparr> \<noteq> [] \<and>
   (0::int) < 30 \<and> (0::int) < 20 \<and>
   update \<lparr>coords = [Point2D 29 10, Point2D 28 10, Point2D 27 10], direction = RIGHT\<rparr> 30 20 =
     (Inr (), \<lparr>coords = [Point2D 30 10, Point2D 29 10, Point2D 28 10], direction = RIGHT\<rparr>)"
  using update_head_tail
    [of "\<lparr>coords = [Point2D 29 10, Point2D 28 10, Point2D 27 10], direction = RIGHT\<rparr>" 30 20]
  by (simp add: add_def)

text \<open>
  C1, as the claim states it, fails: a head at \<open>(29, 10)\<close> moving right on the 30 by
  20 board becomes \<open>(30, 10)\<close>, which is neither the wrapped move \<open>(0, 10)\<close> nor
  inside \<open>[0, 30)\<close>.
\<close>

theorem update_head_wrapped_counterexample:
  "update \<lparr>coords = [Point2D 29 10], direction = RIGHT\<rparr> 30 20 =
     (Inr (), \<lparr>coords = [Point2D 30 10], direction = RIGHT\<rparr>) \<and>
   squash (add (Point2D 29 10) (direction_value RIGHT)) 30 20 = Inr (Point2D 0 10) \<and>
   squash (add (Point2D 29 10) (direction_value RIGHT)) 30 20 \<noteq>
     Inr (hd (coords (snd (update \<lparr>coords = [Point2D 29 10], direction = RIGHT\<rparr> 30 20)))) \<and>
   \<not> x_coord (hd (coords (snd (update \<lparr>coords = [Point2D 29 10], direction = RIGHT\<rparr> 30 20)))) < 30"
  by (simp add: update_def squash_def grow_def pop_def add_def)

subsection \<open>Growth and shrinking\<close>

lemma grow_nonempty:
  "coords s \<noteq> [] \<Longrightarrow>
   grow s = (Inr (), s\<lparr>coords := add (hd (coords s)) (direction_value (direction s)) # coords s\<rparr>)"
  by (cases "coords s") (simp_all add: grow_def)

lemma update_length:
  assumes "coords s \<noteq> []"
  shows "length (coords (snd (update s x_bounds y_bounds))) = length (coords s)"
proof (cases "x_bounds = 0 \<or> y_bounds = 0")
  case True
  with assms show ?thesis by (simp add: update_zero)
next
  case False
  with assms show ?thesis by (simp add: update_nonzero)
qed

lemma move_coords: "coords (snd (move unicode_lower s key)) = coords s"
  by (simp add: move_def Let_def split: option.splits)

text \<open>
  C4. For a snake with a non-empty body, whatever the bounds, one \<^verbatim>\<open>update\<close> call
  leaves the body as long as it was, and an eating tick, \<^verbatim>\<open>grow\<close> once more before
  the \<^verbatim>\<open>update\<close> that grows and pops (with or without a \<^verbatim>\<open>move\<close> between them),
  makes it longer by exactly one; so do two \<^verbatim>\<open>grow\<close> calls and one \<^verbatim>\<open>pop\<close>. The
  \<^verbatim>\<open>update\<close> returns when neither bound is zero; with a zero bound it raises before
  it has changed the body.
\<close>

theorem length_balance:
  assumes "coords s \<noteq> []"
  shows "length (coords (snd (update s x_bounds y_bounds))) = length (coords s) \<and>
         fst (grow s) = Inr () \<and>
         length (coords (snd (grow s))) = length (coords s) + 1 \<and>
         length (coords (snd (update (snd (grow s)) x_bounds y_bounds))) = length (coords s) + 1 \<and>
         length (coords (snd (update (snd (move unicode_lower (snd (grow s)) key)) x_bounds y_bounds))) =
           length (coords s) + 1 \<and>
         length (coords (snd (pop (snd (grow (snd (grow s))))))) = length (coords s) + 1 \<and>
         (if x_bounds = 0 \<or> y_bounds = 0
          then fst (update s x_bounds y_bounds) = Inl ZeroDivisionError \<and>
               fst (update (snd (grow s)) x_bounds y_bounds) = Inl ZeroDivisionError
          else fst (update s x_bounds y_bounds) = Inr () \<and>
               fst (update (snd (grow s)) x_bounds y_bounds) = Inr ())"
proof -
  let ?g = "snd (grow s)"
  have g: "grow s = (Inr (), s\<lparr>coords := add (hd (coords s)) (direction_value (direction s)) # coords s\<rparr>)"
    using assms by (rule grow_nonempty)
  have gne: "coords ?g \<noteq> []" and glen: "length (coords ?g) = length (coords s) + 1"
    by (simp_all add: g)
  have mne: "coords (snd (move unicode_lower ?g key)) \<noteq> []"
    using gne by (simp add: move_coords)
  have 1: "length (coords (snd (update s x_bounds y_bounds))) = length (coords s)"
    using assms by (rule update_length)
  have 2: "length (coords (snd (update ?g x_bounds y_bounds))) = length (coords s) + 1"
    using update_length [OF gne] glen by simp
  have 3: "length (coords (snd (update (snd (move unicode_lower ?g key)) x_bounds y_bounds))) =
             length (coords s) + 1"
    using update_length [OF mne] glen by (simp add: move_coords)
  have 4: "length (coords (snd (pop (snd (grow ?g))))) = length (coords s) + 1"
    using gne glen by (simp add: grow_nonempty pop_def)
  have 5: "x_bounds = 0 \<or> y_bounds = 0 \<Longrightarrow>
           fst (update s x_bounds y_bounds) = Inl ZeroDivisionError \<and>
           fst (update ?g x_bounds y_bounds) = Inl ZeroDivisionError"
    using assms gne by (simp add: update_zero)
  have 6: "\<not> (x_bounds = 0 \<or> y_bounds = 0) \<Longrightarrow>
           fst (update s x_bounds y_bounds) = Inr () \<and>
           fst (update ?g x_bounds y_bounds) = Inr ()"
    using assms gne by (simp add: update_nonzero)
  have 7: "fst (grow s) = Inr ()"
    by (simp add: g)
  show ?thesis
    using 1 2 3 4 5 6 7 glen by presburger
qed

text \<open>The snake of length 1 at \<open>(15, 10)\<close> facing down on the 30 by 20 board.\<close>

theorem length_balance_witness:
  "coords (init 15 10 DOWN) \<noteq> [] \<and>
   update (init 15 10 DOWN) 30 20 = (Inr (), \<lparr>coords = [Point2D 15 11], direction = DOWN\<rparr>) \<and>
   length (coords (snd (update (init 15 10 DOWN) 30 20))) = 1 \<and>
   update (snd (grow (init 15 10 DOWN))) 30 20 =
     (Inr (), \<lparr>coords = [Point2D 15 12, Point2D 15 11], direction = DOWN\<rparr>) \<and>
   length (coords (snd (update (snd (grow (init 15 10 DOWN))) 30 20))) = 2"
  using length_balance
    [where s = "init 15 10 DOWN" and x_bounds = 30 and y_bounds = 20 and
       unicode_lower = "\<lambda>k. k" and key = "[]"]
  by (simp add: init_def update_def grow_def pop_def squash_def add_def)

subsection \<open>Self-collision\<close>

text \<open>
  C6. For a snake with a non-empty body, \<^verbatim>\<open>is_dead\<close> returns whether the head
  (index 0) equals a coordinate of the rest of the body, that is, one at an index from 1
  on; a body of pairwise distinct coordinates reports false.
\<close>

theorem is_dead_iff:
  assumes "coords s \<noteq> []"
  shows "is_dead s = Inr (hd (coords s) \<in> set (tl (coords s))) \<and>
         (is_dead s = Inr True \<longleftrightarrow> (\<exists>i. 1 \<le> i \<and> i < length (coords s) \<and> coords s ! i = coords s ! 0)) \<and>
         (distinct (coords s) \<longrightarrow> is_dead s = Inr False)"
proof -
  obtain h t where ht: "coords s = h # t"
    using assms by (cases "coords s") auto
  have 1: "is_dead s = Inr (h \<in> set t)"
    by (simp add: is_dead_def ht)
  have "(h \<in> set t) = (\<exists>i. 1 \<le> i \<and> i < length (h # t) \<and> (h # t) ! i = h)"
  proof
    assume "h \<in> set t"
    then obtain j where "j < length t" "t ! j = h"
      by (auto simp: in_set_conv_nth)
    then have "1 \<le> Suc j \<and> Suc j < length (h # t) \<and> (h # t) ! Suc j = h"
      by simp
    then show "\<exists>i. 1 \<le> i \<and> i < length (h # t) \<and> (h # t) ! i = h" ..
  next
    assume "\<exists>i. 1 \<le> i \<and> i < length (h # t) \<and> (h # t) ! i = h"
    then obtain i where i: "1 \<le> i" "i < length (h # t)" "(h # t) ! i = h"
      by blast
    then obtain j where "i = Suc j"
      by (cases i) auto
    with i show "h \<in> set t"
      by (auto simp: in_set_conv_nth)
  qed
  then show ?thesis
    using 1 by (auto simp: ht)
qed

text \<open>A body that bites itself, and a straight body of three segments.\<close>

theorem is_dead_iff_witness:
  "coords \<lparr>coords = [Point2D 5 5, Point2D 5 4, Point2D 4 4, Point2D 4 5, Point2D 5 5],
           direction = RIGHT\<rparr> \<noteq> [] \<and>
   is_dead \<lparr>coords = [Point2D 5 5, Point2D 5 4, Point2D 4 4, Point2D 4 5, Point2D 5 5],
            direction = RIGHT\<rparr> = Inr True \<and>
   distinct (coords \<lparr>coords = [Point2D 5 5, Point2D 5 4, Point2D 5 3], direction = DOWN\<rparr>) \<and>
   is_dead \<lparr>coords = [Point2D 5 5, Point2D 5 4, Point2D 5 3], direction = DOWN\<rparr> = Inr False"
  using is_dead_iff [of "\<lparr>coords = [Point2D 5 5, Point2D 5 4, Point2D 4 4, Point2D 4 5, Point2D 5 5],
           direction = RIGHT\<rparr>"]
    is_dead_iff [of "\<lparr>coords = [Point2D 5 5, Point2D 5 4, Point2D 5 3], direction = DOWN\<rparr>"]
  by simp

subsection \<open>Bounds after a tick\<close>

text \<open>
  C9. After one call to \<^verbatim>\<open>update\<close> with bounds
  \<open>x_bounds > 0\<close> and \<open>y_bounds > 0\<close> on a snake with a non-empty body, every segment
  but the head lies in \<open>[0, x_bounds) \<times> [0, y_bounds)\<close>. The head is the sum of a
  point in these bounds and the vector of the current direction: it is in bounds, or
  outside by one unit in exactly one coordinate.
\<close>

theorem update_body_in_bounds:
  assumes "coords s \<noteq> []" and "0 < x_bounds" and "0 < y_bounds"
  shows "fst (update s x_bounds y_bounds) = Inr () \<and>
         coords (snd (update s x_bounds y_bounds)) \<noteq> [] \<and>
         (\<forall>p \<in> set (tl (coords (snd (update s x_bounds y_bounds)))).
            0 \<le> x_coord p \<and> x_coord p < x_bounds \<and> 0 \<le> y_coord p \<and> y_coord p < y_bounds) \<and>
         (\<exists>p. 0 \<le> x_coord p \<and> x_coord p < x_bounds \<and> 0 \<le> y_coord p \<and> y_coord p < y_bounds \<and>
              hd (coords (snd (update s x_bounds y_bounds))) =
                add p (direction_value (direction s))) \<and>
         (let h = hd (coords (snd (update s x_bounds y_bounds)))
          in (0 \<le> x_coord h \<and> x_coord h < x_bounds \<and> 0 \<le> y_coord h \<and> y_coord h < y_bounds) \<or>
             ((x_coord h = - 1 \<or> x_coord h = x_bounds) \<and> 0 \<le> y_coord h \<and> y_coord h < y_bounds) \<or>
             (0 \<le> x_coord h \<and> x_coord h < x_bounds \<and> (y_coord h = - 1 \<or> y_coord h = y_bounds)))"
proof -
  let ?w = "\<lambda>p. Point2D (x_coord p mod x_bounds) (y_coord p mod y_bounds)"
  let ?h = "?w (hd (coords s))"
  have u: "update s x_bounds y_bounds =
      (Inr (), s\<lparr>coords := add ?h (direction_value (direction s)) # butlast (map ?w (coords s))\<rparr>)"
    using assms by (simp add: update_nonzero)
  have inb: "0 \<le> x_coord (?w p) \<and> x_coord (?w p) < x_bounds \<and>
             0 \<le> y_coord (?w p) \<and> y_coord (?w p) < y_bounds" for p
    using assms(2,3) by simp
  have tail: "0 \<le> x_coord p \<and> x_coord p < x_bounds \<and> 0 \<le> y_coord p \<and> y_coord p < y_bounds"
    if "p \<in> set (butlast (map ?w (coords s)))" for p
  proof -
    from that have "p \<in> set (map ?w (coords s))"
      by (rule in_set_butlastD)
    then obtain q where "p = ?w q"
      by auto
    then show ?thesis
      using inb [of q] by simp
  qed
  have hd_sum: "\<exists>p. 0 \<le> x_coord p \<and> x_coord p < x_bounds \<and> 0 \<le> y_coord p \<and> y_coord p < y_bounds \<and>
              add ?h (direction_value (direction s)) = add p (direction_value (direction s))"
    using inb [of "hd (coords s)"] by (intro exI [of _ ?h]) simp
  have near: "(0 \<le> x_coord h \<and> x_coord h < x_bounds \<and> 0 \<le> y_coord h \<and> y_coord h < y_bounds) \<or>
             ((x_coord h = - 1 \<or> x_coord h = x_bounds) \<and> 0 \<le> y_coord h \<and> y_coord h < y_bounds) \<or>
             (0 \<le> x_coord h \<and> x_coord h < x_bounds \<and> (y_coord h = - 1 \<or> y_coord h = y_bounds))"
    if "h = add ?h (direction_value (direction s))" for h
    using inb [of "hd (coords s)"] that
    by (cases "direction s") (auto simp: add_def)
  have c: "coords (snd (update s x_bounds y_bounds)) =
             add ?h (direction_value (direction s)) # butlast (map ?w (coords s))"
    by (simp add: u)
  have 1: "fst (update s x_bounds y_bounds) = Inr ()"
    by (simp add: u)
  have 2: "coords (snd (update s x_bounds y_bounds)) \<noteq> []"
    by (simp add: c)
  have 3: "\<forall>p \<in> set (tl (coords (snd (update s x_bounds y_bounds)))).
            0 \<le> x_coord p \<and> x_coord p < x_bounds \<and> 0 \<le> y_coord p \<and> y_coord p < y_bounds"
    unfolding c list.sel using tail by blast
  have 4: "\<exists>p. 0 \<le> x_coord p \<and> x_coord p < x_bounds \<and> 0 \<le> y_coord p \<and> y_coord p < y_bounds \<and>
              hd (coords (snd (update s x_bounds y_bounds))) =
                add p (direction_value (direction s))"
    unfolding c list.sel by (rule hd_sum)
  have 5: "let h = hd (coords (snd (update s x_bounds y_bounds)))
          in (0 \<le> x_coord h \<and> x_coord h < x_bounds \<and> 0 \<le> y_coord h \<and> y_coord h < y_bounds) \<or>
             ((x_coord h = - 1 \<or> x_coord h = x_bounds) \<and> 0 \<le> y_coord h \<and> y_coord h < y_bounds) \<or>
             (0 \<le> x_coord h \<and> x_coord h < x_bounds \<and> (y_coord h = - 1 \<or> y_coord h = y_bounds))"
    unfolding c list.sel Let_def by (rule near) (rule refl)
  from 1 2 3 4 5 show ?thesis
    by (intro conjI)
qed

text \<open>
  A snake at the left edge moving left: the body stays in bounds and the head leaves
  them by one unit, at \<open>x = -1\<close>.
\<close>

theorem update_body_in_bounds_witness:
  "coords \<lparr>coords = [Point2D 0 7, Point2D 1 7, Point2D 2 7], direction = LEFT\<rparr> \<noteq> [] \<and>
   (0::int) < 30 \<and> (0::int) < 20 \<and>
   update \<lparr>coords = [Point2D 0 7, Point2D 1 7, Point2D 2 7], direction = LEFT\<rparr> 30 20 =
     (Inr (), \<lparr>coords = [Point2D (- 1) 7, Point2D 0 7, Point2D 1 7], direction = LEFT\<rparr>) \<and>
   list_all (\<lambda>p. 0 \<le> x_coord p \<and> x_coord p < 30 \<and> 0 \<le> y_coord p \<and> y_coord p < 20)
     (tl (coords (snd (update
        \<lparr>coords = [Point2D 0 7, Point2D 1 7, Point2D 2 7], direction = LEFT\<rparr> 30 20)))) \<and>
   x_coord (hd (coords (snd (update
        \<lparr>coords = [Point2D 0 7, Point2D 1 7, Point2D 2 7], direction = LEFT\<rparr> 30 20)))) = - 1"
  using update_body_in_bounds
    [of "\<lparr>coords = [Point2D 0 7, Point2D 1 7, Point2D 2 7], direction = LEFT\<rparr>" 30 20]
  by (simp add: update_def squash_def grow_def pop_def add_def)

subsection \<open>Keys and directions\<close>

lemma neg_swap: "(p = neg q) = (q = neg p)"
  by (cases p; cases q) (auto simp: neg_def)

text \<open>The pairs of directions whose vectors are each other's negation.\<close>

lemma reverse_pairs:
  "(direction_value d = neg (direction_value c)) =
   ((c, d) \<in> {(UP, DOWN), (DOWN, UP), (LEFT, RIGHT), (RIGHT, LEFT)})"
  by (cases c; cases d) (simp_all add: neg_def)

text \<open>The code points of the command letters and of their capitals.\<close>

lemma literal_codes:
  "literal ''w'' = [119]" "literal ''a'' = [97]" "literal ''s'' = [115]"
  "literal ''d'' = [100]" "literal ''q'' = [113]"
  "literal ''W'' = [87]" "literal ''A'' = [65]" "literal ''S'' = [83]"
  "literal ''D'' = [68]" "literal ''Q'' = [81]"
  by (simp_all add: literal_def)

lemma char_to_direction_codes:
  "char_to_direction [119] = Some UP" "char_to_direction [97] = Some LEFT"
  "char_to_direction [115] = Some DOWN" "char_to_direction [100] = Some RIGHT"
  "char_to_direction [113] = None"
  by (simp_all add: char_to_direction_def literal_codes)

lemma char_to_direction_other:
  "c \<notin> {[119], [97], [115], [100]} \<Longrightarrow> char_to_direction c = None"
  by (simp add: char_to_direction_def literal_codes)

lemma move_Some:
  assumes "char_to_direction (lower unicode_lower (strip key)) = Some d"
  shows "move unicode_lower s key =
     (True, if direction_value (direction s) \<noteq> neg (direction_value d)
            then s\<lparr>direction := d\<rparr> else s)"
proof -
  have "lower unicode_lower (strip key) \<noteq> literal ''q''"
    using assms by (auto simp: literal_codes char_to_direction_codes)
  then show ?thesis
    using assms by (simp add: move_def Let_def)
qed

lemma move_None:
  "char_to_direction (lower unicode_lower (strip key)) = None \<Longrightarrow>
   move unicode_lower s key = (lower unicode_lower (strip key) \<noteq> literal ''q'', s)"
  by (cases "lower unicode_lower (strip key) = literal ''q''") (simp_all add: move_def Let_def)

subsubsection \<open>What trimming and lowercasing do to a key\<close>

text \<open>
  A key made of whitespace, a string that neither begins nor ends with whitespace,
  and whitespace again, is trimmed to that string.
\<close>

lemma strip_sandwich:
  assumes "list_all isspace pre" and "list_all isspace post"
    and "k = [] \<or> (\<not> isspace (hd k) \<and> \<not> isspace (last k))"
  shows "strip (pre @ k @ post) = k"
proof (cases "k = []")
  case True
  have "dropWhile isspace (pre @ [] @ post) = []"
    unfolding dropWhile_eq_Nil_conv using assms(1,2) by (auto simp: list_all_iff)
  then have "strip (pre @ [] @ post) = []"
    unfolding strip_def by (simp only: rev.simps dropWhile.simps)
  then show ?thesis
    unfolding True .
next
  case False
  then obtain a k' where k: "k = a # k'"
    by (cases k) auto
  have a: "\<not> isspace a" and l: "\<not> isspace (last k)"
    using assms(3) False k by auto
  have "dropWhile isspace (pre @ k @ post) = dropWhile isspace (k @ post)"
    using assms(1) by (intro dropWhile_append2) (simp add: list_all_iff)
  also have "\<dots> = k @ post"
    using a by (simp add: k)
  finally have 1: "dropWhile isspace (pre @ k @ post) = k @ post" .
  have "dropWhile isspace (rev post @ rev k) = dropWhile isspace (rev k)"
    using assms(2) by (intro dropWhile_append2) (simp add: list_all_iff)
  also have "\<dots> = rev k"
    using l False by (cases "rev k") (auto simp: last_rev [symmetric] simp del: last_rev)
  finally have 2: "dropWhile isspace (rev (k @ post)) = rev k"
    by simp
  show ?thesis
    by (simp only: strip_def 1 2 rev_rev_ident)
qed

text \<open>
  Every key is made that way, with what \<^verbatim>\<open>strip\<close> returns in the middle:
  \<^verbatim>\<open>strip\<close> removes whitespace, all of it, from both ends and nothing else.
\<close>

lemma strip_decomp:
  "\<exists>pre post. key = pre @ strip key @ post \<and> list_all isspace pre \<and> list_all isspace post \<and>
     (strip key = [] \<or> (\<not> isspace (hd (strip key)) \<and> \<not> isspace (last (strip key))))"
proof -
  let ?pre = "takeWhile isspace key"
  let ?rest = "dropWhile isspace key"
  let ?D = "dropWhile isspace (rev ?rest)"
  let ?T = "takeWhile isspace (rev ?rest)"
  have s: "strip key = rev ?D"
    by (simp add: strip_def)
  have "rev (?T @ ?D) = rev (rev ?rest)"
    by (simp only: takeWhile_dropWhile_id)
  then have rest: "?rest = rev ?D @ rev ?T"
    by (simp only: rev_append rev_rev_ident)
  have "key = ?pre @ ?rest"
    by simp
  then have 1: "key = ?pre @ strip key @ rev ?T"
    using rest s by simp
  have 2: "list_all isspace ?pre"
    by (auto simp: list_all_iff dest: set_takeWhileD)
  have 3: "list_all isspace (rev ?T)"
    by (auto simp: list_all_iff dest: set_takeWhileD)
  have 4: "\<not> isspace (hd (strip key)) \<and> \<not> isspace (last (strip key))" if ne: "strip key \<noteq> []"
  proof -
    have D: "?D \<noteq> []"
      using ne s by simp
    then have "\<not> isspace (hd ?D)"
      by (rule hd_dropWhile)
    then have last: "\<not> isspace (last (strip key))"
      using D by (simp add: s last_rev)
    have "?rest \<noteq> []"
    proof
      assume e: "?rest = []"
      have "?D = []"
        unfolding e by simp
      with D show False
        by contradiction
    qed
    then have "\<not> isspace (hd ?rest)"
      by (rule hd_dropWhile)
    moreover have "hd ?rest = hd (strip key)"
      using rest s ne by (metis hd_append2)
    ultimately show ?thesis
      using last by simp
  qed
  from 1 2 3 4 show ?thesis
    by blast
qed

text \<open>
  A key of one ASCII character that is not whitespace, with whitespace around it, is
  normalised to that character, a capital letter made small.
\<close>

lemma lower_strip_letter:
  assumes "list_all isspace pre" and "list_all isspace post"
    and "c < 128" and "\<not> isspace c"
  shows "lower unicode_lower (strip (pre @ [c] @ post)) = [lower_ascii c]"
proof -
  have "strip (pre @ [c] @ post) = [c]"
    using assms(1,2,4) by (intro strip_sandwich) simp_all
  then show ?thesis
    using assms(3) by (simp add: lower_def isascii_def)
qed

text \<open>
  A string of ASCII characters is lowercased to a command letter only if it is that
  letter or its capital.
\<close>

lemma lower_ascii_command:
  "(map lower_ascii k \<in> {[119], [97], [115], [100], [113]}) =
   (k \<in> {[119], [87], [97], [65], [115], [83], [100], [68], [113], [81]})"
proof (cases k)
  case Nil
  then show ?thesis by simp
next
  case (Cons c k')
  show ?thesis
  proof (cases k')
    case Nil
    have "(lower_ascii c = 119) = (c = 119 \<or> c = 87)" "(lower_ascii c = 97) = (c = 97 \<or> c = 65)"
      "(lower_ascii c = 115) = (c = 115 \<or> c = 83)" "(lower_ascii c = 100) = (c = 100 \<or> c = 68)"
      "(lower_ascii c = 113) = (c = 113 \<or> c = 81)"
      by (auto simp: lower_ascii_def)
    then show ?thesis
      using Cons Nil by auto
  next
    case (Cons c' k'')
    then show ?thesis
      using \<open>k = c # k'\<close> by simp
  qed
qed

lemma move_other:
  assumes "list_all isspace pre" and "list_all isspace post"
    and "k = [] \<or> (\<not> isspace (hd k) \<and> \<not> isspace (last k))"
    and "k \<notin> {[119], [87], [97], [65], [115], [83], [100], [68], [113], [81]}"
    and "isascii k \<or> unicode_lower k \<notin> {[119], [97], [115], [100], [113]}"
  shows "move unicode_lower s (pre @ k @ post) = (True, s)"
proof -
  have st: "strip (pre @ k @ post) = k"
    using assms(1,2,3) by (rule strip_sandwich)
  have "lower unicode_lower k \<notin> {[119], [97], [115], [100], [113]}"
  proof (cases "isascii k")
    case True
    then have "lower unicode_lower k = map lower_ascii k"
      by (simp add: lower_def)
    then show ?thesis
      using assms(4) lower_ascii_command [of k] by simp
  next
    case False
    then have "lower unicode_lower k = unicode_lower k"
      by (simp add: lower_def)
    then show ?thesis
      using assms(5) False by simp
  qed
  then have "char_to_direction (lower unicode_lower k) = None"
    and "lower unicode_lower k \<noteq> literal ''q''"
    by (simp_all add: char_to_direction_other literal_codes)
  then show ?thesis
    using move_None [of unicode_lower "pre @ k @ post" s] by (simp add: st)
qed

text \<open>Keys to try: the command letters bare and between whitespace, and other keys.\<close>

lemma normalised_keys:
  "lower (\<lambda>k. k) (strip (literal ''w'')) = [119]"
  "lower (\<lambda>k. k) (strip (literal '' D '')) = [100]"
  "lower (\<lambda>k. k) (strip [9, 81, 10]) = [113]"
  "lower (\<lambda>k. k) (strip (literal ''x'')) = [120]"
  "lower (\<lambda>k. k) (strip [12288, 87, 8195]) = [119]"
  "lower (\<lambda>k. k) (strip [8364]) = [8364]"
  by (simp_all add: lower_def strip_def literal_def isspace_def isascii_def lower_ascii_def)

text \<open>
  C3. When the key, trimmed and lowercased, maps to a direction \<open>d\<close>: if the vector
  of \<open>d\<close> is the exact negation of the vector of the current direction, \<^verbatim>\<open>move\<close>
  leaves the direction as it is; otherwise the direction becomes \<open>d\<close>.
\<close>

theorem move_reversal:
  assumes "char_to_direction (lower unicode_lower (strip key)) = Some d"
  shows "(direction_value d = neg (direction_value (direction s)) \<longrightarrow>
            direction (snd (move unicode_lower s key)) = direction s) \<and>
         (direction_value d \<noteq> neg (direction_value (direction s)) \<longrightarrow>
            direction (snd (move unicode_lower s key)) = d)"
proof (cases "direction_value (direction s) = neg (direction_value d)")
  case True
  then have "direction_value d = neg (direction_value (direction s))"
    by (simp only: neg_swap [of "direction_value d"])
  with True show ?thesis
    by (simp add: move_Some [OF assms])
next
  case False
  then have "direction_value d \<noteq> neg (direction_value (direction s))"
    by (simp only: neg_swap [of "direction_value d"] not_False_eq_True)
  with False show ?thesis
    by (simp add: move_Some [OF assms])
qed

text \<open>
  The snake \<open>[(5,5), (5,4), (5,3)]\<close> facing down: the key \<open>w\<close> is the reverse
  and is rejected; the key \<open>D\<close> between spaces turns it right.
\<close>

theorem move_reversal_witness:
  "char_to_direction (lower (\<lambda>k. k) (strip (literal ''w''))) = Some UP \<and>
   direction_value UP = neg (direction_value DOWN) \<and>
   direction (snd (move (\<lambda>k. k)
      \<lparr>coords = [Point2D 5 5, Point2D 5 4, Point2D 5 3], direction = DOWN\<rparr> (literal ''w''))) = DOWN \<and>
   char_to_direction (lower (\<lambda>k. k) (strip (literal '' D ''))) = Some RIGHT \<and>
   direction_value RIGHT \<noteq> neg (direction_value DOWN) \<and>
   direction (snd (move (\<lambda>k. k)
      \<lparr>coords = [Point2D 5 5, Point2D 5 4, Point2D 5 3], direction = DOWN\<rparr> (literal '' D ''))) = RIGHT"
  using
    move_reversal [of "\<lambda>k. k" "literal ''w''" UP
      "\<lparr>coords = [Point2D 5 5, Point2D 5 4, Point2D 5 3], direction = DOWN\<rparr>"]
    move_reversal [of "\<lambda>k. k" "literal '' D ''" RIGHT
      "\<lparr>coords = [Point2D 5 5, Point2D 5 4, Point2D 5 3], direction = DOWN\<rparr>"]
  by (simp add: normalised_keys char_to_direction_codes neg_def)

text \<open>
  C7. For every key, \<^verbatim>\<open>move\<close> trims the whitespace from both ends of the key and
  lowercases what is left. Of the result: \<open>w\<close>, \<open>a\<close>, \<open>s\<close> and \<open>d\<close> request the
  directions up, left, down and right (the call returns true and the direction becomes
  the requested one unless that is the reverse of the current one); \<open>q\<close> makes the
  call return false, the snake as it was; anything else leaves the snake as it was and
  the call returns true.

  In terms of the key as it is typed: every key is whitespace, then what \<^verbatim>\<open>strip\<close>
  returns, which neither begins nor ends with whitespace, then whitespace. When the
  part \<open>k\<close> between the whitespace \<open>pre\<close> and \<open>post\<close> is a command letter, small or
  capital, the key acts as that command. When \<open>k\<close> is any other string, the key is
  ignored; for a string with a character beyond ASCII this takes that the Unicode
  tables do not lowercase it to a command letter.
\<close>

theorem move_keys:
  "(lower unicode_lower (strip key) = literal ''w'' \<longrightarrow>
      move unicode_lower s key =
        (True, if direction_value (direction s) \<noteq> neg (direction_value UP)
               then s\<lparr>direction := UP\<rparr> else s)) \<and>
   (lower unicode_lower (strip key) = literal ''a'' \<longrightarrow>
      move unicode_lower s key =
        (True, if direction_value (direction s) \<noteq> neg (direction_value LEFT)
               then s\<lparr>direction := LEFT\<rparr> else s)) \<and>
   (lower unicode_lower (strip key) = literal ''s'' \<longrightarrow>
      move unicode_lower s key =
        (True, if direction_value (direction s) \<noteq> neg (direction_value DOWN)
               then s\<lparr>direction := DOWN\<rparr> else s)) \<and>
   (lower unicode_lower (strip key) = literal ''d'' \<longrightarrow>
      move unicode_lower s key =
        (True, if direction_value (direction s) \<noteq> neg (direction_value RIGHT)
               then s\<lparr>direction := RIGHT\<rparr> else s)) \<and>
   (lower unicode_lower (strip key) = literal ''q'' \<longrightarrow> move unicode_lower s key = (False, s)) \<and>
   (lower unicode_lower (strip key) \<notin>
      {literal ''w'', literal ''a'', literal ''s'', literal ''d'', literal ''q''} \<longrightarrow>
      move unicode_lower s key = (True, s)) \<and>
   (\<exists>before after.
      key = before @ strip key @ after \<and> list_all isspace before \<and> list_all isspace after \<and>
      (strip key = [] \<or> (\<not> isspace (hd (strip key)) \<and> \<not> isspace (last (strip key))))) \<and>
   (list_all isspace pre \<and> list_all isspace post \<longrightarrow>
      (k \<in> {literal ''w'', literal ''W''} \<longrightarrow>
         move unicode_lower s (pre @ k @ post) =
           (True, if direction_value (direction s) \<noteq> neg (direction_value UP)
                  then s\<lparr>direction := UP\<rparr> else s)) \<and>
      (k \<in> {literal ''a'', literal ''A''} \<longrightarrow>
         move unicode_lower s (pre @ k @ post) =
           (True, if direction_value (direction s) \<noteq> neg (direction_value LEFT)
                  then s\<lparr>direction := LEFT\<rparr> else s)) \<and>
      (k \<in> {literal ''s'', literal ''S''} \<longrightarrow>
         move unicode_lower s (pre @ k @ post) =
           (True, if direction_value (direction s) \<noteq> neg (direction_value DOWN)
                  then s\<lparr>direction := DOWN\<rparr> else s)) \<and>
      (k \<in> {literal ''d'', literal ''D''} \<longrightarrow>
         move unicode_lower s (pre @ k @ post) =
           (True, if direction_value (direction s) \<noteq> neg (direction_value RIGHT)
                  then s\<lparr>direction := RIGHT\<rparr> else s)) \<and>
      (k \<in> {literal ''q'', literal ''Q''} \<longrightarrow>
         move unicode_lower s (pre @ k @ post) = (False, s)) \<and>
      ((k = [] \<or> (\<not> isspace (hd k) \<and> \<not> isspace (last k))) \<and>
       k \<notin> {literal ''w'', literal ''W'', literal ''a'', literal ''A'', literal ''s'',
             literal ''S'', literal ''d'', literal ''D'', literal ''q'', literal ''Q''} \<and>
       (isascii k \<or>
        unicode_lower k \<notin>
          {literal ''w'', literal ''a'', literal ''s'', literal ''d'', literal ''q''}) \<longrightarrow>
         move unicode_lower s (pre @ k @ post) = (True, s)))"
proof -
  let ?c = "lower unicode_lower (strip key)"
  have 1: "?c = literal ''w'' \<longrightarrow>
      move unicode_lower s key =
        (True, if direction_value (direction s) \<noteq> neg (direction_value UP)
               then s\<lparr>direction := UP\<rparr> else s)"
    using move_Some [of unicode_lower key UP s]
    by (simp add: literal_codes char_to_direction_codes)
  have 2: "?c = literal ''a'' \<longrightarrow>
      move unicode_lower s key =
        (True, if direction_value (direction s) \<noteq> neg (direction_value LEFT)
               then s\<lparr>direction := LEFT\<rparr> else s)"
    using move_Some [of unicode_lower key LEFT s]
    by (simp add: literal_codes char_to_direction_codes)
  have 3: "?c = literal ''s'' \<longrightarrow>
      move unicode_lower s key =
        (True, if direction_value (direction s) \<noteq> neg (direction_value DOWN)
               then s\<lparr>direction := DOWN\<rparr> else s)"
    using move_Some [of unicode_lower key DOWN s]
    by (simp add: literal_codes char_to_direction_codes)
  have 4: "?c = literal ''d'' \<longrightarrow>
      move unicode_lower s key =
        (True, if direction_value (direction s) \<noteq> neg (direction_value RIGHT)
               then s\<lparr>direction := RIGHT\<rparr> else s)"
    using move_Some [of unicode_lower key RIGHT s]
    by (simp add: literal_codes char_to_direction_codes)
  have 5: "?c = literal ''q'' \<longrightarrow> move unicode_lower s key = (False, s)"
    using move_None [of unicode_lower key s]
    by (simp add: literal_codes char_to_direction_codes)
  have 6: "?c \<notin> {literal ''w'', literal ''a'', literal ''s'', literal ''d'', literal ''q''} \<longrightarrow>
      move unicode_lower s key = (True, s)"
    using move_None [of unicode_lower key s] char_to_direction_other [of ?c]
    by (simp add: literal_codes)
  have 7: "\<exists>before after.
      key = before @ strip key @ after \<and> list_all isspace before \<and> list_all isspace after \<and>
      (strip key = [] \<or> (\<not> isspace (hd (strip key)) \<and> \<not> isspace (last (strip key))))"
    by (rule strip_decomp)
  have letter: "move unicode_lower s (pre @ [c] @ post) =
      (if lower_ascii c = 113 then (False, s)
       else case char_to_direction [lower_ascii c] of
              None \<Rightarrow> (True, s)
            | Some d \<Rightarrow> (True, if direction_value (direction s) \<noteq> neg (direction_value d)
                                then s\<lparr>direction := d\<rparr> else s))"
    if "list_all isspace pre" and "list_all isspace post" and "c < 128" and "\<not> isspace c" for c
  proof -
    have "lower unicode_lower (strip (pre @ [c] @ post)) = [lower_ascii c]"
      using that by (rule lower_strip_letter)
    then have n: "lower unicode_lower (strip (pre @ c # post)) = [lower_ascii c]"
      by simp
    show ?thesis
    proof (cases "char_to_direction [lower_ascii c]")
      case None
      then show ?thesis
        using move_None [of unicode_lower "pre @ [c] @ post" s]
        by (simp add: n literal_codes)
    next
      case (Some d)
      then have "lower_ascii c \<noteq> 113"
        using char_to_direction_codes(5) by auto
      then show ?thesis
        using Some move_Some [of unicode_lower "pre @ [c] @ post" d s]
        by (simp add: n)
    qed
  qed
  have 8: "list_all isspace pre \<and> list_all isspace post \<longrightarrow>
      (k \<in> {literal ''w'', literal ''W''} \<longrightarrow>
         move unicode_lower s (pre @ k @ post) =
           (True, if direction_value (direction s) \<noteq> neg (direction_value UP)
                  then s\<lparr>direction := UP\<rparr> else s)) \<and>
      (k \<in> {literal ''a'', literal ''A''} \<longrightarrow>
         move unicode_lower s (pre @ k @ post) =
           (True, if direction_value (direction s) \<noteq> neg (direction_value LEFT)
                  then s\<lparr>direction := LEFT\<rparr> else s)) \<and>
      (k \<in> {literal ''s'', literal ''S''} \<longrightarrow>
         move unicode_lower s (pre @ k @ post) =
           (True, if direction_value (direction s) \<noteq> neg (direction_value DOWN)
                  then s\<lparr>direction := DOWN\<rparr> else s)) \<and>
      (k \<in> {literal ''d'', literal ''D''} \<longrightarrow>
         move unicode_lower s (pre @ k @ post) =
           (True, if direction_value (direction s) \<noteq> neg (direction_value RIGHT)
                  then s\<lparr>direction := RIGHT\<rparr> else s)) \<and>
      (k \<in> {literal ''q'', literal ''Q''} \<longrightarrow>
         move unicode_lower s (pre @ k @ post) = (False, s)) \<and>
      ((k = [] \<or> (\<not> isspace (hd k) \<and> \<not> isspace (last k))) \<and>
       k \<notin> {literal ''w'', literal ''W'', literal ''a'', literal ''A'', literal ''s'',
             literal ''S'', literal ''d'', literal ''D'', literal ''q'', literal ''Q''} \<and>
       (isascii k \<or>
        unicode_lower k \<notin>
          {literal ''w'', literal ''a'', literal ''s'', literal ''d'', literal ''q''}) \<longrightarrow>
         move unicode_lower s (pre @ k @ post) = (True, s))"
  proof (intro impI conjI)
    assume ws: "list_all isspace pre \<and> list_all isspace post"
    then have l: "move unicode_lower s (pre @ [c] @ post) =
      (if lower_ascii c = 113 then (False, s)
       else case char_to_direction [lower_ascii c] of
              None \<Rightarrow> (True, s)
            | Some d \<Rightarrow> (True, if direction_value (direction s) \<noteq> neg (direction_value d)
                                then s\<lparr>direction := d\<rparr> else s))"
      if "c < 128" and "\<not> isspace c" for c
      using letter that by blast
    {
      assume "k \<in> {literal ''w'', literal ''W''}"
      then show "move unicode_lower s (pre @ k @ post) =
           (True, if direction_value (direction s) \<noteq> neg (direction_value UP)
                  then s\<lparr>direction := UP\<rparr> else s)"
        using l [of 119] l [of 87]
        by (auto simp: literal_codes isspace_def lower_ascii_def char_to_direction_codes)
    next
      assume "k \<in> {literal ''a'', literal ''A''}"
      then show "move unicode_lower s (pre @ k @ post) =
           (True, if direction_value (direction s) \<noteq> neg (direction_value LEFT)
                  then s\<lparr>direction := LEFT\<rparr> else s)"
        using l [of 97] l [of 65]
        by (auto simp: literal_codes isspace_def lower_ascii_def char_to_direction_codes)
    next
      assume "k \<in> {literal ''s'', literal ''S''}"
      then show "move unicode_lower s (pre @ k @ post) =
           (True, if direction_value (direction s) \<noteq> neg (direction_value DOWN)
                  then s\<lparr>direction := DOWN\<rparr> else s)"
        using l [of 115] l [of 83]
        by (auto simp: literal_codes isspace_def lower_ascii_def char_to_direction_codes)
    next
      assume "k \<in> {literal ''d'', literal ''D''}"
      then show "move unicode_lower s (pre @ k @ post) =
           (True, if direction_value (direction s) \<noteq> neg (direction_value RIGHT)
                  then s\<lparr>direction := RIGHT\<rparr> else s)"
        using l [of 100] l [of 68]
        by (auto simp: literal_codes isspace_def lower_ascii_def char_to_direction_codes)
    next
      assume "k \<in> {literal ''q'', literal ''Q''}"
      then show "move unicode_lower s (pre @ k @ post) = (False, s)"
        using l [of 113] l [of 81]
        by (auto simp: literal_codes isspace_def lower_ascii_def)
    next
      assume o: "(k = [] \<or> (\<not> isspace (hd k) \<and> \<not> isspace (last k))) \<and>
        k \<notin> {literal ''w'', literal ''W'', literal ''a'', literal ''A'', literal ''s'',
              literal ''S'', literal ''d'', literal ''D'', literal ''q'', literal ''Q''} \<and>
        (isascii k \<or>
         unicode_lower k \<notin>
           {literal ''w'', literal ''a'', literal ''s'', literal ''d'', literal ''q''})"
      show "move unicode_lower s (pre @ k @ post) = (True, s)"
      proof (rule move_other)
        show "list_all isspace pre" "list_all isspace post"
          using ws by simp_all
        show "k = [] \<or> (\<not> isspace (hd k) \<and> \<not> isspace (last k))"
          using o by blast
        show "k \<notin> {[119], [87], [97], [65], [115], [83], [100], [68], [113], [81]}"
          using o by (simp add: literal_codes)
        show "isascii k \<or> unicode_lower k \<notin> {[119], [97], [115], [100], [113]}"
          using o by (simp add: literal_codes)
      qed
    }
  qed
  from 1 2 3 4 5 6 7 8 show ?thesis
    by (intro conjI) assumption+
qed

text \<open>
  One key of each kind, typed as it is: a turn, a rejected reversal between spaces,
  quit between a tab and a newline, a capital letter between an ideographic space and
  an en space, a letter that is no command, and the euro sign.
\<close>

theorem move_keys_witness:
  "list_all isspace [32] \<and> list_all isspace [9] \<and> list_all isspace [10] \<and>
   list_all isspace [12288] \<and> list_all isspace [8195] \<and>
   move (\<lambda>k. k) \<lparr>coords = [Point2D 5 5], direction = RIGHT\<rparr> (literal ''w'') =
     (True, \<lparr>coords = [Point2D 5 5], direction = UP\<rparr>) \<and>
   move (\<lambda>k. k) \<lparr>coords = [Point2D 5 5], direction = LEFT\<rparr> (literal '' D '') =
     (True, \<lparr>coords = [Point2D 5 5], direction = LEFT\<rparr>) \<and>
   move (\<lambda>k. k) \<lparr>coords = [Point2D 5 5], direction = LEFT\<rparr> [9, 81, 10] =
     (False, \<lparr>coords = [Point2D 5 5], direction = LEFT\<rparr>) \<and>
   move (\<lambda>k. k) \<lparr>coords = [Point2D 5 5], direction = LEFT\<rparr> [12288, 87, 8195] =
     (True, \<lparr>coords = [Point2D 5 5], direction = UP\<rparr>) \<and>
   move (\<lambda>k. k) \<lparr>coords = [Point2D 5 5], direction = LEFT\<rparr> (literal ''x'') =
     (True, \<lparr>coords = [Point2D 5 5], direction = LEFT\<rparr>) \<and>
   move (\<lambda>k. k) \<lparr>coords = [Point2D 5 5], direction = LEFT\<rparr> [8364] =
     (True, \<lparr>coords = [Point2D 5 5], direction = LEFT\<rparr>)"
proof -
  have ws: "list_all isspace []" "list_all isspace [32]" "list_all isspace [9]"
    "list_all isspace [10]" "list_all isspace [12288]" "list_all isspace [8195]"
    by (simp_all add: isspace_def)
  have lit: "literal '' D '' = [32] @ literal ''D'' @ [32]" "literal ''x'' = [120]"
    by (simp_all add: literal_def)
  have 1: "move (\<lambda>k. k) \<lparr>coords = [Point2D 5 5], direction = RIGHT\<rparr> ([] @ literal ''w'' @ []) =
     (True, \<lparr>coords = [Point2D 5 5], direction = UP\<rparr>)"
    using move_keys [where unicode_lower = "\<lambda>k. k" and pre = "[]" and post = "[]" and
        k = "literal ''w''" and s = "\<lparr>coords = [Point2D 5 5], direction = RIGHT\<rparr>"] ws
    by (simp add: neg_def)
  have 2: "move (\<lambda>k. k) \<lparr>coords = [Point2D 5 5], direction = LEFT\<rparr> ([32] @ literal ''D'' @ [32]) =
     (True, \<lparr>coords = [Point2D 5 5], direction = LEFT\<rparr>)"
    using move_keys [where unicode_lower = "\<lambda>k. k" and pre = "[32]" and post = "[32]" and
        k = "literal ''D''" and s = "\<lparr>coords = [Point2D 5 5], direction = LEFT\<rparr>"] ws
    by (simp add: neg_def)
  have 3: "move (\<lambda>k. k) \<lparr>coords = [Point2D 5 5], direction = LEFT\<rparr> ([9] @ literal ''Q'' @ [10]) =
     (False, \<lparr>coords = [Point2D 5 5], direction = LEFT\<rparr>)"
    using move_keys [where unicode_lower = "\<lambda>k. k" and pre = "[9]" and post = "[10]" and
        k = "literal ''Q''" and s = "\<lparr>coords = [Point2D 5 5], direction = LEFT\<rparr>"] ws
    by simp
  have 4: "move (\<lambda>k. k) \<lparr>coords = [Point2D 5 5], direction = LEFT\<rparr>
      ([12288] @ literal ''W'' @ [8195]) =
     (True, \<lparr>coords = [Point2D 5 5], direction = UP\<rparr>)"
    using move_keys [where unicode_lower = "\<lambda>k. k" and pre = "[12288]" and post = "[8195]" and
        k = "literal ''W''" and s = "\<lparr>coords = [Point2D 5 5], direction = LEFT\<rparr>"] ws
    by (simp add: neg_def)
  have 5: "move (\<lambda>k. k) \<lparr>coords = [Point2D 5 5], direction = LEFT\<rparr> ([] @ [120] @ []) =
     (True, \<lparr>coords = [Point2D 5 5], direction = LEFT\<rparr>)"
    using move_keys [where unicode_lower = "\<lambda>k. k" and pre = "[]" and post = "[]" and
        k = "[120]" and s = "\<lparr>coords = [Point2D 5 5], direction = LEFT\<rparr>"] ws
    by (simp add: literal_codes isspace_def isascii_def)
  have 6: "move (\<lambda>k. k) \<lparr>coords = [Point2D 5 5], direction = LEFT\<rparr> ([] @ [8364] @ []) =
     (True, \<lparr>coords = [Point2D 5 5], direction = LEFT\<rparr>)"
    using move_keys [where unicode_lower = "\<lambda>k. k" and pre = "[]" and post = "[]" and
        k = "[8364]" and s = "\<lparr>coords = [Point2D 5 5], direction = LEFT\<rparr>"] ws
    by (simp add: literal_codes isspace_def isascii_def)
  from 1 2 3 4 5 6 ws show ?thesis
    by (simp add: lit literal_codes)
qed

text \<open>
  C10. \<^verbatim>\<open>move\<close> changes nothing of the snake but its direction: the body is as it
  was, and the direction is the old one or the direction that the key, trimmed and
  lowercased, maps to.
\<close>

theorem move_frame:
  "coords (snd (move unicode_lower s key)) = coords s \<and>
   snd (move unicode_lower s key) = s\<lparr>direction := direction (snd (move unicode_lower s key))\<rparr> \<and>
   (direction (snd (move unicode_lower s key)) = direction s \<or>
    char_to_direction (lower unicode_lower (strip key)) =
      Some (direction (snd (move unicode_lower s key))))"
proof (cases "char_to_direction (lower unicode_lower (strip key))")
  case None
  then show ?thesis
    by (simp add: move_None)
next
  case (Some d)
  then show ?thesis
    by (simp add: move_Some)
qed

text \<open>A turn to the right leaves the two segments where they were.\<close>

theorem move_frame_witness:
  "coords (snd (move (\<lambda>k. k) \<lparr>coords = [Point2D 5 5, Point2D 5 4], direction = DOWN\<rparr>
      (literal '' D ''))) = [Point2D 5 5, Point2D 5 4] \<and>
   direction (snd (move (\<lambda>k. k) \<lparr>coords = [Point2D 5 5, Point2D 5 4], direction = DOWN\<rparr>
      (literal '' D ''))) = RIGHT"
  using move_frame [of "\<lambda>k. k" "\<lparr>coords = [Point2D 5 5, Point2D 5 4], direction = DOWN\<rparr>"
      "literal '' D ''"]
  by (simp add: move_def Let_def normalised_keys char_to_direction_codes literal_codes neg_def)

subsection \<open>Placing the apple\<close>

lemma set_py_range: "set (py_range n) = {0..<n}"
  by (auto simp: py_range_def)

text \<open>The free list holds the cells of the grid that the snake does not occupy.\<close>

lemma set_free_cells:
  "set (free_cells x_bounds y_bounds snake) =
     {p. 0 \<le> x_coord p \<and> x_coord p < x_bounds \<and> 0 \<le> y_coord p \<and> y_coord p < y_bounds \<and>
         p \<notin> set (coords snake)}"
proof (rule set_eqI)
  fix p
  obtain x y where p: "p = Point2D x y"
    by (cases p)
  show "(p \<in> set (free_cells x_bounds y_bounds snake)) =
        (p \<in> {p. 0 \<le> x_coord p \<and> x_coord p < x_bounds \<and> 0 \<le> y_coord p \<and> y_coord p < y_bounds \<and>
                 p \<notin> set (coords snake)})"
    unfolding p by (auto simp: free_cells_def set_py_range)
qed

lemma choice_in_set: "seq \<noteq> [] \<Longrightarrow> \<exists>v. choice r seq = Inr v \<and> v \<in> set seq"
  by (simp add: choice_def)

text \<open>Every apple that \<^verbatim>\<open>new_apple_location\<close> returns is a cell of the board.\<close>

lemma new_apple_location_on_board:
  assumes "new_apple_location r x_bounds y_bounds snake = Inr apple"
  shows "0 \<le> x_coord apple \<and> x_coord apple < x_bounds \<and>
         0 \<le> y_coord apple \<and> y_coord apple < y_bounds \<and> apple \<notin> set (coords snake)"
proof -
  have ne: "free_cells x_bounds y_bounds snake \<noteq> []"
    using assms by (auto simp: new_apple_location_def)
  then obtain v where v: "choice r (free_cells x_bounds y_bounds snake) = Inr v"
    "v \<in> set (free_cells x_bounds y_bounds snake)"
    using choice_in_set by blast
  then have "apple = v"
    using assms ne by (simp add: new_apple_location_def)
  then show ?thesis
    using v(2) by (simp add: set_free_cells)
qed

text \<open>
  C5. For bounds \<open>x_bounds > 0\<close> and \<open>y_bounds > 0\<close> and every draw of the random
  generator: if some cell of the grid is not occupied by the snake,
  \<^verbatim>\<open>new_apple_location\<close> returns a cell of the grid that is not occupied; if the snake
  occupies every cell of the grid, it exits with status 0, the win, and returns no point.
\<close>

theorem new_apple_location_free_or_win:
  assumes "0 < x_bounds" and "0 < y_bounds"
  shows "((\<exists>x y. 0 \<le> x \<and> x < x_bounds \<and> 0 \<le> y \<and> y < y_bounds \<and>
                 Point2D x y \<notin> set (coords snake)) \<longrightarrow>
            (\<exists>p. new_apple_location r x_bounds y_bounds snake = Inr p \<and>
                 p \<notin> set (coords snake) \<and>
                 0 \<le> x_coord p \<and> x_coord p < x_bounds \<and>
                 0 \<le> y_coord p \<and> y_coord p < y_bounds)) \<and>
         ((\<forall>x y. 0 \<le> x \<and> x < x_bounds \<and> 0 \<le> y \<and> y < y_bounds \<longrightarrow>
                 Point2D x y \<in> set (coords snake)) \<longrightarrow>
            new_apple_location r x_bounds y_bounds snake = Inl (SystemExit 0))"
proof (intro conjI impI)
  assume "\<exists>x y. 0 \<le> x \<and> x < x_bounds \<and> 0 \<le> y \<and> y < y_bounds \<and>
                Point2D x y \<notin> set (coords snake)"
  then obtain x y where "Point2D x y \<in> set (free_cells x_bounds y_bounds snake)"
    by (auto simp: set_free_cells)
  then have ne: "free_cells x_bounds y_bounds snake \<noteq> []"
    by auto
  then obtain v where v: "choice r (free_cells x_bounds y_bounds snake) = Inr v"
    "v \<in> set (free_cells x_bounds y_bounds snake)"
    using choice_in_set by blast
  from v(2) have "v \<notin> set (coords snake) \<and> 0 \<le> x_coord v \<and> x_coord v < x_bounds \<and>
                  0 \<le> y_coord v \<and> y_coord v < y_bounds"
    by (simp add: set_free_cells)
  moreover have "new_apple_location r x_bounds y_bounds snake = Inr v"
    using ne v(1) by (simp add: new_apple_location_def)
  ultimately show "\<exists>p. new_apple_location r x_bounds y_bounds snake = Inr p \<and>
                 p \<notin> set (coords snake) \<and>
                 0 \<le> x_coord p \<and> x_coord p < x_bounds \<and>
                 0 \<le> y_coord p \<and> y_coord p < y_bounds"
    by blast
next
  assume all: "\<forall>x y. 0 \<le> x \<and> x < x_bounds \<and> 0 \<le> y \<and> y < y_bounds \<longrightarrow>
                 Point2D x y \<in> set (coords snake)"
  have none: "p \<notin> set (free_cells x_bounds y_bounds snake)" for p
    using all [rule_format, of "x_coord p" "y_coord p"] by (auto simp: set_free_cells)
  have "free_cells x_bounds y_bounds snake = []"
  proof (cases "free_cells x_bounds y_bounds snake")
    case Nil
    then show ?thesis .
  next
    case (Cons a rest)
    then have "a \<in> set (free_cells x_bounds y_bounds snake)"
      by simp
    with none show ?thesis
      by blast
  qed
  then show "new_apple_location r x_bounds y_bounds snake = Inl (SystemExit 0)"
    by (simp add: new_apple_location_def)
qed

text \<open>
  A grid of two cells: with the snake on \<open>(0, 0)\<close> the apple goes to \<open>(1, 0)\<close>;
  with the snake on both cells the game is won.
\<close>

lemma grid_2_1:
  "0 \<le> x \<and> x < 2 \<and> 0 \<le> y \<and> y < 1 \<Longrightarrow> (x = 0 \<or> x = 1) \<and> y = (0::int)" for x :: int
  by presburger

theorem new_apple_location_free_or_win_witness:
  "(0::int) < 2 \<and> (0::int) < 1 \<and>
   Point2D 1 0 \<notin> set (coords \<lparr>coords = [Point2D 0 0], direction = RIGHT\<rparr>) \<and>
   new_apple_location 7 2 1 \<lparr>coords = [Point2D 0 0], direction = RIGHT\<rparr> = Inr (Point2D 1 0) \<and>
   new_apple_location 7 2 1 \<lparr>coords = [Point2D 1 0, Point2D 0 0], direction = RIGHT\<rparr> =
     Inl (SystemExit 0)"
proof -
  have full: "\<forall>x y. 0 \<le> x \<and> x < 2 \<and> 0 \<le> y \<and> y < 1 \<longrightarrow>
      Point2D x y \<in> set (coords \<lparr>coords = [Point2D 1 0, Point2D 0 0], direction = RIGHT\<rparr>)"
    using grid_2_1 by auto
  have gap: "\<exists>x y. 0 \<le> x \<and> x < 2 \<and> 0 \<le> y \<and> y < 1 \<and>
      Point2D x y \<notin> set (coords \<lparr>coords = [Point2D 0 0], direction = RIGHT\<rparr>)"
    by (intro exI [of _ 1] exI [of _ 0]) simp
  have free: "\<exists>p. new_apple_location 7 2 1 \<lparr>coords = [Point2D 0 0], direction = RIGHT\<rparr> = Inr p \<and>
      p \<notin> set (coords \<lparr>coords = [Point2D 0 0], direction = RIGHT\<rparr>) \<and>
      0 \<le> x_coord p \<and> x_coord p < 2 \<and> 0 \<le> y_coord p \<and> y_coord p < 1"
    using new_apple_location_free_or_win
      [of 2 1 "\<lparr>coords = [Point2D 0 0], direction = RIGHT\<rparr>" 7] gap
    by simp
  then obtain p where p: "new_apple_location 7 2 1 \<lparr>coords = [Point2D 0 0], direction = RIGHT\<rparr> = Inr p"
    "p \<noteq> Point2D 0 0" "0 \<le> x_coord p \<and> x_coord p < 2 \<and> 0 \<le> y_coord p \<and> y_coord p < 1"
    by auto
  have "p = Point2D 1 0"
    using p(2) grid_2_1 [OF p(3)] by (cases p) auto
  moreover have "new_apple_location 7 2 1 \<lparr>coords = [Point2D 1 0, Point2D 0 0], direction = RIGHT\<rparr> =
       Inl (SystemExit 0)"
    using new_apple_location_free_or_win
      [of 2 1 "\<lparr>coords = [Point2D 1 0, Point2D 0 0], direction = RIGHT\<rparr>" 7] full
    by simp
  ultimately show ?thesis
    using p(1) by simp
qed

subsection \<open>The rendered frame\<close>

lemma length_py_range: "length (py_range n) = nat n"
  by (simp add: py_range_def)

lemma blank_board_replicate:
  "blank_board x_bounds y_bounds = replicate (nat y_bounds) (replicate (nat x_bounds) '' '')"
  by (simp add: blank_board_def map_replicate_const length_py_range)

lemma py_index_Inr:
  "- int n \<le> i \<Longrightarrow> i < int n \<Longrightarrow> \<exists>j. py_index n i = Inr j \<and> j < n"
  by (auto simp: py_index_def Let_def)

lemma py_index_Inl:
  "i < - int n \<or> int n \<le> i \<Longrightarrow> py_index n i = Inl IndexError"
  by (auto simp: py_index_def Let_def)






lemma join_length:
  "length (join sep cells) = sum_list (map length cells) + (length cells - 1) * length sep"
  by (induction sep cells rule: join.induct) simp_all



text \<open>An apple whose coordinates do not index the board makes \<^verbatim>\<open>plot\<close> raise.\<close>

lemma plot_apple_outside:
  assumes "0 < x_bounds" and "0 < y_bounds"
    and "x_coord apple < - x_bounds \<or> x_bounds \<le> x_coord apple \<or>
         y_coord apple < - y_bounds \<or> y_bounds \<le> y_coord apple"
  shows "plot x_bounds y_bounds snake apple = Inl IndexError"
proof (cases "y_coord apple < - y_bounds \<or> y_bounds \<le> y_coord apple")
  case True
  then have "py_index (length (blank_board x_bounds y_bounds)) (y_coord apple) = Inl IndexError"
    using assms(2) by (intro py_index_Inl) (simp add: blank_board_replicate)
  then show ?thesis
    by (simp add: plot_def Let_def)
next
  case False
  then obtain r where r: "py_index (length (blank_board x_bounds y_bounds)) (y_coord apple) = Inr r"
    "r < length (blank_board x_bounds y_bounds)"
    using py_index_Inr [of "length (blank_board x_bounds y_bounds)" "y_coord apple"] assms(2)
    by (auto simp: blank_board_replicate)
  then have "length (blank_board x_bounds y_bounds ! r) = nat x_bounds"
    by (simp add: blank_board_replicate)
  moreover have "x_coord apple < - x_bounds \<or> x_bounds \<le> x_coord apple"
    using False assms(3) by blast
  ultimately have
    "py_index (length (blank_board x_bounds y_bounds ! r)) (x_coord apple) = Inl IndexError"
    using assms(1) by (intro py_index_Inl) simp
  with r(1) show ?thesis
    by (simp add: plot_def Let_def)
qed



end
